theory Spec2Isabelle
  imports Main
begin

section \<open>JavaScript values and built-ins used by the service\<close>

text \<open>
  A property that holds a string at run time may also hold \<open>null\<close> or \<open>undefined\<close>; both are
  modelled by \<open>None\<close>. A property typed as an array is \<open>None\<close> when it is absent or not an
  array. Numbers are integers (the columns behind them are \<open>integer\<close> columns).
\<close>

definition truthy :: "string option \<Rightarrow> bool" where
  "truthy v = (case v of None \<Rightarrow> False | Some s \<Rightarrow> s \<noteq> [])"



text \<open>\<open>x || null\<close> on a string.\<close>

definition or_null :: "string option \<Rightarrow> string option" where
  "or_null v = (if truthy v then v else None)"



text \<open>\<open>Array.isArray(x) ? x : []\<close> and \<open>x || []\<close> (an array, even an empty one, is truthy).\<close>

definition array_or_empty :: "'a list option \<Rightarrow> 'a list" where
  "array_or_empty v = (case v of None \<Rightarrow> [] | Some xs \<Rightarrow> xs)"

fun startsWith :: "string \<Rightarrow> string \<Rightarrow> bool" where
  "startsWith s [] = True"
| "startsWith [] (c # t) = False"
| "startsWith (d # s) (c # t) = (d = c \<and> startsWith s t)"

text \<open>\<open>s.includes(t)\<close>.\<close>

fun str_includes :: "string \<Rightarrow> string \<Rightarrow> bool" where
  "str_includes [] t = (t = [])"
| "str_includes (c # s) t = (startsWith (c # s) t \<or> str_includes s t)"


section \<open>Data model\<close>

record PrepItem =
  pi_id :: string
  pi_name :: string
  pi_quantity :: string
  pi_unit :: string
  pi_category :: "string option"
  pi_completed :: "bool option"
  pi_assignedTo :: "string option"
  pi_notes :: "string option"

record PrepList =
  pl_id :: "string option"
  pl_name :: "string option"
  pl_items :: "PrepItem list option"
  pl_company_id :: "string option"
  pl_created_at :: "string option"
  pl_updated_at :: "string option"

text \<open>A row of table \<open>prep_lists\<close>, as sent to and received from the remote.\<close>

record prep_list_row =
  plr_id :: "string option"
  plr_name :: "string option"
  plr_items :: "PrepItem list option"
  plr_company_id :: "string option"
  plr_user_id :: "string option"
  plr_created_at :: "string option"
  plr_updated_at :: "string option"

datatype difficulty = Easy | Medium | Hard

record Recipe =
  rc_id :: "string option"
  rc_name :: "string option"
  rc_description :: "string option"
  rc_ingredients :: "string list option"
  rc_instructions :: "string list option"
  rc_yield :: "string option"
  rc_prepTime :: "int option"
  rc_cookTime :: "int option"
  rc_totalTime :: "int option"
  rc_difficulty :: "difficulty option"
  rc_tags :: "string list option"
  rc_notes :: "string option"
  rc_image :: "string option"
  rc_company_id :: "string option"
  rc_createdAt :: "string option"
  rc_updatedAt :: "string option"

text \<open>A row of table \<open>recipes\<close>.\<close>

record recipe_row =
  rr_id :: "string option"
  rr_name :: "string option"
  rr_description :: "string option"
  rr_ingredients :: "string list option"
  rr_instructions :: "string list option"
  rr_yield :: "string option"
  rr_prep_time :: "int option"
  rr_cook_time :: "int option"
  rr_total_time :: "int option"
  rr_difficulty :: "difficulty option"
  rr_tags :: "string list option"
  rr_notes :: "string option"
  rr_image :: "string option"
  rr_company_id :: "string option"
  rr_user_id :: "string option"
  rr_created_at :: "string option"
  rr_updated_at :: "string option"


section \<open>The remote collaborator\<close>

text \<open>
  An error value: an \<open>Error\<close> instance or the error object of the backend client
  (\<open>message\<close>, \<open>code\<close>).
\<close>

datatype js_error = JsError (err_message: string) (err_code: "string option") (err_is_Error: bool)

definition Error :: "string \<Rightarrow> js_error" where
  "Error m = JsError m None True"

text \<open>Reading a property of \<open>null\<close>, as in \<open>data.id\<close> or \<open>const { data: { session } } = ...\<close>.\<close>

definition TypeError_null :: js_error where
  "TypeError_null = JsError ''Cannot read properties of null'' None True"

text \<open>A remote call either rejects (throws at the \<open>await\<close>) or resolves to \<open>{ data, error }\<close>.\<close>

datatype 'a reply = Throws js_error | Reply "'a option" "js_error option"

record User =
  u_id :: string
  u_email :: "string option"
  u_full_name :: "string option"
  u_role :: "string option"

record UserProfile =
  up_id :: string
  up_email :: "string option"
  up_full_name :: "string option"
  up_company_id :: "string option"
  up_role :: string
  up_avatar_url :: "string option"
  up_created_at :: "string option"
  up_updated_at :: "string option"

record new_profile =
  np_id :: string
  np_email :: "string option"
  np_full_name :: "string option"
  np_role :: string

record upsert_options =
  onConflict :: "string option"
  ignoreDuplicates :: "bool option"

datatype request =
    GetSession
  | SelectIdLimit1 string
  | SelectCountLimit1 string
  | SelectProfile string
  | UpsertProfile new_profile upsert_options
  | UpsertPrepList prep_list_row upsert_options
  | SelectPrepLists
  | SelectPrepListById "string option"
  | DeletePrepList string
  | UpsertRecipe recipe_row upsert_options
  | SelectRecipes
  | SelectPgClass string
  | SelectPgPolicies string string

text \<open>
  The remote is opaque: each kind of call is answered by a function of the requests this
  process has issued so far and of the request's arguments.
\<close>

record remote =
  getSession :: "request list \<Rightarrow> User option reply"
  selectIdLimit1 :: "request list \<Rightarrow> string \<Rightarrow> unit reply"
  selectCountLimit1 :: "request list \<Rightarrow> string \<Rightarrow> unit reply"
  selectProfile :: "request list \<Rightarrow> string \<Rightarrow> UserProfile reply"
  upsertProfile :: "request list \<Rightarrow> new_profile \<Rightarrow> UserProfile reply"
  upsertPrepList :: "request list \<Rightarrow> prep_list_row \<Rightarrow> prep_list_row reply"
  selectPrepLists :: "request list \<Rightarrow> prep_list_row option list reply"
  selectPrepListById :: "request list \<Rightarrow> string option \<Rightarrow> prep_list_row reply"
  deletePrepListRow :: "request list \<Rightarrow> string \<Rightarrow> unit reply"
  upsertRecipe :: "request list \<Rightarrow> recipe_row \<Rightarrow> recipe_row reply"
  selectRecipes :: "request list \<Rightarrow> recipe_row option list reply"
  selectPgClass :: "request list \<Rightarrow> string \<Rightarrow> bool option reply"
  selectPgPolicies :: "request list \<Rightarrow> string \<Rightarrow> string \<Rightarrow> (string \<times> string) list reply"

text \<open>The two configuration secrets (\<open>import.meta.env\<close>; the build defines a missing one as \<open>''\<close>).\<close>

record env =
  VITE_SUPABASE_URL :: string
  VITE_SUPABASE_ANON_KEY :: string
  access_granted :: "string option"

text \<open>Requests that change rows of the remote, and those that change an entity table.\<close>

fun is_write :: "request \<Rightarrow> bool" where
  "is_write (UpsertProfile _ _) = True"
| "is_write (UpsertPrepList _ _) = True"
| "is_write (DeletePrepList _) = True"
| "is_write (UpsertRecipe _ _) = True"
| "is_write _ = False"

fun is_entity_write :: "request \<Rightarrow> bool" where
  "is_entity_write (UpsertPrepList _ _) = True"
| "is_entity_write (DeletePrepList _) = True"
| "is_entity_write (UpsertRecipe _ _) = True"
| "is_entity_write _ = False"


section \<open>The profile-caching service: session, profile, connection\<close>

text \<open>
  The static fields of the class, and the requests issued to the remote so far (oldest first).
  Operations run to completion one after the other; \<open>connectionPromise\<close> then holds the value
  its promise settled with.
\<close>

record svc =
  isInitialized :: bool
  connectionPromise :: "bool option"
  currentUser :: "User option"
  userProfile :: "UserProfile option"
  log :: "request list"

definition issue :: "request \<Rightarrow> svc \<Rightarrow> svc" where
  "issue q s = s\<lparr>log := log s @ [q]\<rparr>"

definition initialize :: "remote \<Rightarrow> svc \<Rightarrow> (js_error + unit) \<times> svc" where
  "initialize R s =
     (if isInitialized s then (Inr (), s)
      else case getSession R (log s) of
             Throws e \<Rightarrow> (Inl e, issue GetSession s)
           | Reply None err \<Rightarrow> (Inl TypeError_null, issue GetSession s)
           | Reply (Some session) err \<Rightarrow>
               (Inr (), (issue GetSession s)\<lparr>currentUser := session, isInitialized := True\<rparr>))"

definition newProfile :: "User \<Rightarrow> new_profile" where
  "newProfile u =
     \<lparr> np_id = u_id u, np_email = u_email u, np_full_name = or_null (u_full_name u),
       np_role = ''user'' \<rparr>"

definition createProfile :: "remote \<Rightarrow> User \<Rightarrow> svc \<Rightarrow> UserProfile option \<times> svc" where
  "createProfile R u s =
     (let opts = \<lparr>onConflict = Some ''id'', ignoreDuplicates = None\<rparr>;
          s1 = issue (UpsertProfile (newProfile u) opts) s
      in case upsertProfile R (log s) (newProfile u) of
           Throws e \<Rightarrow> (None, s1)
         | Reply createdProfile (Some createError) \<Rightarrow> (None, s1)
         | Reply createdProfile None \<Rightarrow> (createdProfile, s1\<lparr>userProfile := createdProfile\<rparr>))"

definition ensureUserProfile :: "remote \<Rightarrow> svc \<Rightarrow> UserProfile option \<times> svc" where
  "ensureUserProfile R s =
     (case currentUser s of
        None \<Rightarrow> (None, s)
      | Some u \<Rightarrow>
          (case userProfile s of
             Some p \<Rightarrow> (Some p, s)
           | None \<Rightarrow>
               (let s1 = issue (SelectProfile (u_id u)) s
                in case selectProfile R (log s) (u_id u) of
                     Throws e \<Rightarrow> (None, s1)
                   | Reply (Some existingProfile) None \<Rightarrow>
                       (Some existingProfile, s1\<lparr>userProfile := Some existingProfile\<rparr>)
                   | Reply (Some existingProfile) (Some fetchError) \<Rightarrow> createProfile R u s1
                   | Reply None fetchError \<Rightarrow> createProfile R u s1)))"

definition is_rls_error :: "js_error \<Rightarrow> bool" where
  "is_rls_error error = (err_code error = Some ''42501'' \<or> str_includes (err_message error) ''RLS'')"

definition performConnectionTest :: "env \<Rightarrow> remote \<Rightarrow> svc \<Rightarrow> bool \<times> svc" where
  "performConnectionTest E R s =
     (case initialize R s of
        (Inl e, s1) \<Rightarrow> (False, s1)
      | (Inr _, s1) \<Rightarrow>
          if VITE_SUPABASE_URL E = [] \<or> VITE_SUPABASE_ANON_KEY E = [] then (False, s1)
          else
            (let s2 = issue (SelectIdLimit1 ''prep_lists'') s1
             in case selectIdLimit1 R (log s1) ''prep_lists'' of
                  Throws e \<Rightarrow> (False, s2)
                | Reply d None \<Rightarrow> (True, s2)
                | Reply d (Some error) \<Rightarrow>
                    if is_rls_error error then
                      (case getSession R (log s2) of
                         Throws authError \<Rightarrow> (False, issue GetSession s2)
                       | Reply None err \<Rightarrow> (False, issue GetSession s2)
                       | Reply (Some session) err \<Rightarrow> (True, issue GetSession s2))
                    else (False, s2)))"

definition testConnection :: "env \<Rightarrow> remote \<Rightarrow> svc \<Rightarrow> bool \<times> svc" where
  "testConnection E R s =
     (case connectionPromise s of
        Some b \<Rightarrow> (b, s)
      | None \<Rightarrow>
          (case performConnectionTest E R s of
             (b, s1) \<Rightarrow> (b, s1\<lparr>connectionPromise := Some b\<rparr>)))"

text \<open>The \<open>catch\<close> block of \<open>executeWithErrorHandling\<close>: what is thrown for a caught error.\<close>

definition reclassify :: "js_error \<Rightarrow> js_error" where
  "reclassify error =
     (if err_code error = Some ''42P01'' then
        Error ''Table not found. Please ensure database migrations have been run.''
      else if err_code error = Some ''42501'' \<or> str_includes (err_message error) ''RLS'' then
        Error ''Access denied. Please check Row Level Security policies or authentication.''
      else if err_code error = Some ''23505'' then
        Error ''Duplicate entry detected. This item may already exist.''
      else if str_includes (err_message error) ''JWT'' then
        Error ''Authentication token invalid. Please refresh and try again.''
      else error)"

definition connection_error :: js_error where
  "connection_error =
     Error ''Database connection not available. Please check your Supabase configuration.''"



section \<open>Entity mappers of the profile-caching service\<close>








text \<open>The remote answers an upsert with the stored row: what was sent, and its own timestamps.\<close>

definition stamped_prep :: "string option \<Rightarrow> string option \<Rightarrow> prep_list_row \<Rightarrow> prep_list_row" where
  "stamped_prep c u row = row\<lparr>plr_created_at := c, plr_updated_at := u\<rparr>"

definition stamped_recipe :: "string option \<Rightarrow> string option \<Rightarrow> recipe_row \<Rightarrow> recipe_row" where
  "stamped_recipe c u row = row\<lparr>rr_created_at := c, rr_updated_at := u\<rparr>"



section \<open>The profile-caching service: save and load\<close>


definition validation_error_prep :: js_error where
  "validation_error_prep = Error ''Prep list must have a valid ID and name''"

definition auth_error_prep :: js_error where
  "auth_error_prep = Error ''Authentication required to save prep lists''"





definition validation_error_recipe :: js_error where
  "validation_error_recipe = Error ''Recipe must have valid ID and name''"

definition auth_error_recipe :: js_error where
  "auth_error_recipe = Error ''Authentication required to save recipes''"








section \<open>The profile-caching service: diagnoseConnection\<close>

record diag_user =
  du_id :: string
  du_email :: "string option"
  du_role :: "string option"

record diagnosis =
  d_configured :: bool
  d_accessible :: bool
  d_authenticated :: bool
  d_tables :: "string list"
  d_errors :: "string list"
  d_user :: "diag_user option"
  d_userProfile :: "UserProfile option"
  d_rlsStatus :: "(string \<times> bool \<times> string list) list"

text \<open>Assignment to a property of an object, and \<open>Map.prototype.set\<close>: a new key goes last.\<close>

fun obj_set :: "'k \<Rightarrow> 'v \<Rightarrow> ('k \<times> 'v) list \<Rightarrow> ('k \<times> 'v) list" where
  "obj_set k v [] = [(k, v)]"
| "obj_set k v ((k', v') # kvs) = (if k' = k then (k, v) # kvs else (k', v') # obj_set k v kvs)"

definition push_error :: "string \<Rightarrow> diagnosis \<Rightarrow> diagnosis" where
  "push_error m d = d\<lparr>d_errors := d_errors d @ [m]\<rparr>"

text \<open>\<open>e instanceof Error ? e.message : 'Unknown error'\<close>.\<close>

definition message_of :: "js_error \<Rightarrow> string" where
  "message_of e = (if err_is_Error e then err_message e else ''Unknown error'')"

definition quoted :: "string \<Rightarrow> string" where
  "quoted t = [CHR 0x27] @ t @ [CHR 0x27]"

definition tablesToTest :: "string list" where
  "tablesToTest = [''user_profiles'', ''prep_lists'', ''events'', ''recipes'', ''methods'', ''containers'']"

definition rlsQueries :: "(string \<times> string) list" where
  "rlsQueries = [(''user_profiles'', ''public''), (''prep_lists'', ''public''), (''events'', ''public''),
                 (''recipes'', ''public''), (''methods'', ''public''), (''containers'', ''public'')]"

text \<open>One turn of the loop over \<open>tablesToTest\<close>, with its own \<open>try\<close>/\<open>catch\<close>.\<close>

definition probeTable :: "remote \<Rightarrow> string \<Rightarrow> diagnosis \<times> svc \<Rightarrow> diagnosis \<times> svc" where
  "probeTable R table ds =
     (case ds of (d, s) \<Rightarrow>
        (let s1 = issue (SelectIdLimit1 table) s
         in case selectIdLimit1 R (log s) table of
              Throws e \<Rightarrow> (push_error (''Table '' @ quoted table @ '': '' @ message_of e) d, s1)
            | Reply dt (Some error) \<Rightarrow>
                if is_rls_error error then
                  ((push_error (''Table '' @ quoted table @ '': RLS policy active ('' @
                       (if d_authenticated d then ''user authenticated'' else ''no authentication'') @ '')'') d)
                     \<lparr>d_tables := d_tables d @ [table @ '' (RLS active)''], d_accessible := True\<rparr>, s1)
                else (push_error (''Table '' @ quoted table @ '': '' @ err_message error) d, s1)
            | Reply dt None \<Rightarrow> (d\<lparr>d_tables := d_tables d @ [table], d_accessible := True\<rparr>, s1)))"

definition set_rlsStatus :: "string \<Rightarrow> bool \<times> string list \<Rightarrow> diagnosis \<Rightarrow> diagnosis" where
  "set_rlsStatus table v d = d\<lparr>d_rlsStatus := obj_set table v (d_rlsStatus d)\<rparr>"

text \<open>One turn of the loop over \<open>rlsQueries\<close>, with its own \<open>try\<close>/\<open>catch\<close>.\<close>

definition checkRls :: "remote \<Rightarrow> string \<times> string \<Rightarrow> diagnosis \<times> svc \<Rightarrow> diagnosis \<times> svc" where
  "checkRls R q ds =
     (case (q, ds) of ((table, schema), (d, s)) \<Rightarrow>
        (let s1 = issue (SelectPgClass table) s
         in case selectPgClass R (log s) table of
              Throws e \<Rightarrow> (set_rlsStatus table (False, [''Unable to check policies'']) d, s1)
            | Reply rlsData err \<Rightarrow>
                (let rlsEnabled = (case rlsData of Some (Some b) \<Rightarrow> b | _ \<Rightarrow> False);
                     s2 = issue (SelectPgPolicies schema table) s1
                 in case selectPgPolicies R (log s1) schema table of
                      Throws e \<Rightarrow> (set_rlsStatus table (False, [''Unable to check policies'']) d, s2)
                    | Reply policies err2 \<Rightarrow>
                        (set_rlsStatus table
                           (rlsEnabled, map (\<lambda>(cmd, policyname). cmd @ '': '' @ policyname) (array_or_empty policies)) d,
                         s2))))"

definition diagnosis0 :: diagnosis where
  "diagnosis0 =
     \<lparr> d_configured = False, d_accessible = False, d_authenticated = False, d_tables = [],
       d_errors = [], d_user = None, d_userProfile = None, d_rlsStatus = [] \<rparr>"

text \<open>
  The outer \<open>try\<close> block. The first component is the exception that left the block, if any;
  the mutations of \<open>diagnosis\<close> made before it stay.
\<close>

definition diagnoseTry :: "env \<Rightarrow> remote \<Rightarrow> svc \<Rightarrow> js_error option \<times> diagnosis \<times> svc" where
  "diagnoseTry E R s =
     (let hasUrl = (VITE_SUPABASE_URL E \<noteq> []);
          hasKey = (VITE_SUPABASE_ANON_KEY E \<noteq> []);
          d1 = (if \<not> hasUrl then push_error ''VITE_SUPABASE_URL not configured'' diagnosis0 else diagnosis0);
          d2 = (if \<not> hasKey then push_error ''VITE_SUPABASE_ANON_KEY not configured'' d1 else d1);
          d3 = d2\<lparr>d_configured := hasUrl \<and> hasKey\<rparr>
      in if \<not> d_configured d3 then (None, d3, s)
         else
           (let s1 = issue GetSession s
            in case getSession R (log s) of
                 Throws e \<Rightarrow> (Some e, d3, s1)
               | Reply None authError \<Rightarrow> (Some TypeError_null, d3, s1)
               | Reply (Some session) authError \<Rightarrow>
                   (let ds4 =
                          (case authError of
                             Some ae \<Rightarrow> (push_error (''Auth error: '' @ err_message ae) d3, s1)
                           | None \<Rightarrow>
                               (case session of
                                  None \<Rightarrow> (d3, s1)
                                | Some u \<Rightarrow>
                                    (case ensureUserProfile R s1 of
                                       (p, s2) \<Rightarrow>
                                         (d3\<lparr> d_authenticated := True,
                                              d_user := Some \<lparr>du_id = u_id u, du_email = u_email u, du_role = u_role u\<rparr>,
                                              d_userProfile := p \<rparr>, s2))));
                        ds5 = fold (probeTable R) tablesToTest ds4;
                        ds6 = fold (checkRls R) rlsQueries ds5
                    in (None, fst ds6, snd ds6))))"

text \<open>
  \<open>diagnoseConnection\<close>: the \<open>try\<close> block, its \<open>catch\<close>, the reset of \<open>connectionPromise\<close>
  and the \<open>return\<close>. \<open>Inl\<close> would be an exception leaving the function.
\<close>

definition diagnoseConnection :: "env \<Rightarrow> remote \<Rightarrow> svc \<Rightarrow> (js_error + diagnosis) \<times> svc" where
  "diagnoseConnection E R s =
     (case diagnoseTry E R s of
        (thrown, d, s1) \<Rightarrow>
          (let d' = (case thrown of
                       None \<Rightarrow> d
                     | Some error \<Rightarrow> push_error (''Connection diagnosis failed: '' @ message_of error) d)
           in (Inr d', s1\<lparr>connectionPromise := None\<rparr>)))"


section \<open>The lock and dedupe service: operation guard\<close>

datatype outcome = Fulfilled | Rejected

text \<open>
  The static fields of the second \<open>DatabaseService\<close> class and its requests so far. A promise
  is a number; \<open>pending\<close> maps each promise returned by \<open>operation().finally(...)\<close> and not yet
  settled to the key its \<open>finally\<close> callback deletes, \<open>invoked\<close> lists the operations that
  were started, \<open>settled\<close> records how a promise settled.
\<close>

record lk_svc =
  connectionCache :: "(bool \<times> int) option"
  operationLocks :: "string \<rightharpoonup> nat"
  recentOperations :: "string \<rightharpoonup> int \<times> PrepList"
  lk_log :: "request list"
  pending :: "nat \<rightharpoonup> string"
  next_promise :: nat
  invoked :: "(nat \<times> string) list"
  settled :: "nat \<rightharpoonup> outcome"

definition lk_issue :: "request \<Rightarrow> lk_svc \<Rightarrow> lk_svc" where
  "lk_issue q s = s\<lparr>lk_log := lk_log s @ [q]\<rparr>"

definition CACHE_DURATION :: int where
  "CACHE_DURATION = 5 * 60 * 1000"

definition DUPLICATE_WINDOW :: int where
  "DUPLICATE_WINDOW = 2000"

text \<open>\<open>testConnection\<close>; \<open>now\<close> is the value of \<open>Date.now()\<close>.\<close>

definition testConnection_lk :: "env \<Rightarrow> remote \<Rightarrow> int \<Rightarrow> lk_svc \<Rightarrow> bool \<times> lk_svc" where
  "testConnection_lk E R now s =
     (let fresh =
        (if access_granted E \<noteq> Some ''1'' then (False, s\<lparr>connectionCache := Some (False, now)\<rparr>)
         else if VITE_SUPABASE_URL E = [] \<or> VITE_SUPABASE_ANON_KEY E = [] then
           (False, s\<lparr>connectionCache := Some (False, now)\<rparr>)
         else
           (let s1 = lk_issue (SelectCountLimit1 ''prep_lists'') s
            in case selectCountLimit1 R (lk_log s) ''prep_lists'' of
                 Throws e \<Rightarrow> (False, s1\<lparr>connectionCache := Some (False, now)\<rparr>)
               | Reply d error \<Rightarrow> (error = None, s1\<lparr>connectionCache := Some (error = None, now)\<rparr>)))
      in case connectionCache s of
           None \<Rightarrow> fresh
         | Some (isConnected, lastCheck) \<Rightarrow>
             if now - lastCheck < CACHE_DURATION then (isConnected, s) else fresh)"

text \<open>\<open>x || d\<close> on a string, and a string in a template literal.\<close>

definition str_or :: "string option \<Rightarrow> string \<Rightarrow> string" where
  "str_or v d = (case v of None \<Rightarrow> d | Some x \<Rightarrow> if x = [] then d else x)"

definition template :: "string option \<Rightarrow> string" where
  "template v = (case v of None \<Rightarrow> ''null'' | Some x \<Rightarrow> x)"

text \<open>
  \<open>generateOperationKey\<close> and \<open>isDuplicateOperation\<close>. \<open>JSON.stringify\<close> is a parameter:
  any function of the payload.
\<close>

definition generateOperationKey :: "(PrepList \<Rightarrow> string) \<Rightarrow> string \<Rightarrow> PrepList \<Rightarrow> string" where
  "generateOperationKey stringify operation data =
     (if operation = ''savePrepList'' \<and> truthy (pl_id data) then
        ''prepList_'' @ template (pl_id data) @ ''_'' @ str_or (pl_name data) ''unnamed''
      else if operation = ''saveEvent'' \<and> truthy (pl_id data) then
        ''event_'' @ template (pl_id data) @ ''_'' @ str_or (pl_name data) ''unnamed''
      else operation @ ''_'' @ take 100 (stringify data))"

definition isDuplicateOperation ::
  "(PrepList \<Rightarrow> string) \<Rightarrow> int \<Rightarrow> string \<Rightarrow> PrepList \<Rightarrow> lk_svc \<Rightarrow> bool \<times> lk_svc" where
  "isDuplicateOperation stringify now operationKey data s =
     (case recentOperations s operationKey of
        None \<Rightarrow> (False, s)
      | Some (timestamp, recent_data) \<Rightarrow>
          if now - timestamp > DUPLICATE_WINDOW then
            (False, s\<lparr>recentOperations := (recentOperations s)(operationKey := None)\<rparr>)
          else (stringify recent_data = stringify data, s))"

text \<open>
  \<open>executeWithLock\<close>, up to its \<open>return\<close>: the promise handed to the caller. Starting
  \<open>operation\<close> yields promise \<open>next_promise\<close>.
\<close>

definition executeWithLock :: "string \<Rightarrow> string \<Rightarrow> lk_svc \<Rightarrow> nat \<times> lk_svc" where
  "executeWithLock operationKey operation s =
     (case operationLocks s operationKey of
        Some existingOperation \<Rightarrow> (existingOperation, s)
      | None \<Rightarrow>
          (let operationPromise = next_promise s
           in (operationPromise,
               s\<lparr> invoked := invoked s @ [(operationPromise, operation)],
                  pending := (pending s)(operationPromise \<mapsto> operationKey),
                  next_promise := Suc operationPromise,
                  operationLocks := (operationLocks s)(operationKey \<mapsto> operationPromise) \<rparr>)))"

text \<open>The operation behind promise \<open>p\<close> settles: its \<open>finally\<close> callback runs.\<close>

definition settle :: "nat \<Rightarrow> outcome \<Rightarrow> lk_svc \<Rightarrow> lk_svc" where
  "settle p out s =
     (case pending s p of
        None \<Rightarrow> s
      | Some operationKey \<Rightarrow>
          s\<lparr> operationLocks := (operationLocks s)(operationKey := None),
             pending := (pending s)(p := None),
             settled := (settled s)(p \<mapsto> out) \<rparr>)"

text \<open>Overlapping calls: each call and each settlement is one atomic step.\<close>

datatype event = Call string string | Settle nat outcome

fun step :: "event \<Rightarrow> lk_svc \<Rightarrow> lk_svc" where
  "step (Call operationKey operation) s = snd (executeWithLock operationKey operation s)"
| "step (Settle p out) s = settle p out s"

definition run :: "event list \<Rightarrow> lk_svc \<Rightarrow> lk_svc" where
  "run es s = fold step es s"

definition lk_init :: lk_svc where
  "lk_init =
     \<lparr> connectionCache = None, operationLocks = Map.empty, recentOperations = Map.empty,
       lk_log = [], pending = Map.empty, next_promise = 0, invoked = [], settled = Map.empty \<rparr>"

fun settles :: "nat \<Rightarrow> event \<Rightarrow> bool" where
  "settles p (Settle q out) = (q = p)"
| "settles p (Call k f) = False"

text \<open>
  A call that runs to completion before the next one starts: the result of its operation, or
  the promise of the call in flight that it joined.
\<close>

datatype 'a call = Settled "js_error + 'a" | Joined nat

definition withLock ::
  "string \<Rightarrow> string \<Rightarrow> (lk_svc \<Rightarrow> (js_error + 'a) \<times> lk_svc) \<Rightarrow> lk_svc \<Rightarrow> 'a call \<times> lk_svc" where
  "withLock operationKey operation body s =
     (case executeWithLock operationKey operation s of
        (p, s1) \<Rightarrow>
          if operationLocks s operationKey \<noteq> None then (Joined p, s1)
          else
            (case body s1 of
               (r, s2) \<Rightarrow> (Settled r, settle p (case r of Inl e \<Rightarrow> Rejected | Inr v \<Rightarrow> Fulfilled) s2)))"


section \<open>The lock and dedupe service: prep lists and recipes\<close>

definition no_options :: upsert_options where
  "no_options = \<lparr>onConflict = None, ignoreDuplicates = None\<rparr>"

definition connection_error_save :: js_error where
  "connection_error_save = Error ''Database connection required for data persistence''"


definition validation_error_lk :: js_error where
  "validation_error_lk = Error ''Invalid prep list data: missing id or name''"

text \<open>The payload of the upsert and the objects built from rows in this class.\<close>

definition upsertPayload_lk :: "PrepList \<Rightarrow> prep_list_row" where
  "upsertPayload_lk prepList =
     \<lparr> plr_id = pl_id prepList, plr_name = pl_name prepList, plr_items = pl_items prepList,
       plr_company_id = pl_company_id prepList, plr_user_id = None,
       plr_created_at = None, plr_updated_at = None \<rparr>"

definition savedPrepList_lk :: "prep_list_row \<Rightarrow> PrepList" where
  "savedPrepList_lk d =
     \<lparr> pl_id = plr_id d, pl_name = plr_name d, pl_items = Some (array_or_empty (plr_items d)),
       pl_company_id = None, pl_created_at = None, pl_updated_at = None \<rparr>"


text \<open>
  The operation \<open>savePrepList\<close> runs under the lock. \<open>t_conn\<close> and \<open>t_done\<close> are the values of
  \<open>Date.now()\<close> in \<open>testConnection\<close> and after the upsert.
\<close>

definition savePrepList_op ::
  "env \<Rightarrow> remote \<Rightarrow> int \<Rightarrow> int \<Rightarrow> string \<Rightarrow> PrepList \<Rightarrow> lk_svc \<Rightarrow> (js_error + PrepList) \<times> lk_svc" where
  "savePrepList_op E R t_conn t_done operationKey prepList s =
     (case testConnection_lk E R t_conn s of
        (isConnected, s1) \<Rightarrow>
          if \<not> isConnected then (Inl connection_error_save, s1)
          else if \<not> truthy (pl_id prepList) \<or> \<not> truthy (pl_name prepList) then
            (Inl validation_error_lk, s1)
          else
            (let row = upsertPayload_lk prepList;
                 s2 = lk_issue (UpsertPrepList row no_options) s1
             in case upsertPrepList R (lk_log s1) row of
                  Throws e \<Rightarrow> (Inl e, s2)
                | Reply d (Some error) \<Rightarrow>
                    if err_code error = Some ''23505'' then
                      (let s3 = lk_issue (SelectPrepListById (pl_id prepList)) s2
                       in case selectPrepListById R (lk_log s2) (pl_id prepList) of
                            Throws e \<Rightarrow> (Inl e, s3)
                          | Reply (Some existing) err \<Rightarrow> (Inr (savedPrepList_lk existing), s3)
                          | Reply None err \<Rightarrow> (Inl error, s3))
                    else (Inl error, s2)
                | Reply d None \<Rightarrow>
                    (let s3 = s2\<lparr>recentOperations := (recentOperations s2)(operationKey \<mapsto> (t_done, prepList))\<rparr>
                     in case d of
                          None \<Rightarrow> (Inl TypeError_null, s3)
                        | Some dt \<Rightarrow> (Inr (savedPrepList_lk dt), s3))))"

text \<open>\<open>savePrepList\<close>; \<open>t_check\<close> is the value of \<open>Date.now()\<close> in \<open>isDuplicateOperation\<close>.\<close>

definition savePrepList_lk ::
  "(PrepList \<Rightarrow> string) \<Rightarrow> env \<Rightarrow> remote \<Rightarrow> int \<Rightarrow> int \<Rightarrow> int \<Rightarrow> PrepList \<Rightarrow> lk_svc \<Rightarrow> PrepList call \<times> lk_svc" where
  "savePrepList_lk stringify E R t_check t_conn t_done prepList s =
     (let operationKey = generateOperationKey stringify ''savePrepList'' prepList
      in case isDuplicateOperation stringify t_check operationKey prepList s of
           (True, s1) \<Rightarrow> (Settled (Inr prepList), s1)
         | (False, s1) \<Rightarrow>
             withLock operationKey ''savePrepList''
               (savePrepList_op E R t_conn t_done operationKey prepList) s1)"








section \<open>Concrete environments, remotes and states\<close>

definition env_ok :: env where
  "env_ok = \<lparr> VITE_SUPABASE_URL = ''https://db.example'', VITE_SUPABASE_ANON_KEY = ''anon'',
              access_granted = Some ''1'' \<rparr>"


definition alice :: User where
  "alice = \<lparr> u_id = ''u1'', u_email = Some ''alice@example.com'', u_full_name = Some ''Alice'',
             u_role = Some ''authenticated'' \<rparr>"

definition profile_of :: "new_profile \<Rightarrow> UserProfile" where
  "profile_of np =
     \<lparr> up_id = np_id np, up_email = np_email np, up_full_name = np_full_name np,
       up_company_id = None, up_role = np_role np, up_avatar_url = None,
       up_created_at = Some ''t0'', up_updated_at = Some ''t0'' \<rparr>"

definition not_found :: js_error where
  "not_found = JsError ''JSON object requested, multiple (or no) rows returned'' (Some ''PGRST116'') False"

definition server_down :: js_error where
  "server_down = JsError ''Failed to fetch'' None True"

text \<open>
  A remote where alice is signed in, every table is reachable and empty, no profile exists
  yet, and every upsert stores the row it is sent.
\<close>

definition remote_ok :: remote where
  "remote_ok =
     \<lparr> getSession = (\<lambda>h. Reply (Some (Some alice)) None),
       selectIdLimit1 = (\<lambda>h t. Reply (Some ()) None),
       selectCountLimit1 = (\<lambda>h t. Reply (Some ()) None),
       selectProfile = (\<lambda>h i. Reply None (Some not_found)),
       upsertProfile = (\<lambda>h np. Reply (Some (profile_of np)) None),
       upsertPrepList = (\<lambda>h row. Reply (Some (stamped_prep (Some ''t0'') (Some ''t0'') row)) None),
       selectPrepLists = (\<lambda>h. Reply (Some []) None),
       selectPrepListById = (\<lambda>h i. Reply None (Some not_found)),
       deletePrepListRow = (\<lambda>h i. Reply None None),
       upsertRecipe = (\<lambda>h row. Reply (Some (stamped_recipe (Some ''t0'') (Some ''t0'') row)) None),
       selectRecipes = (\<lambda>h. Reply (Some []) None),
       selectPgClass = (\<lambda>h t. Reply (Some (Some True)) None),
       selectPgPolicies = (\<lambda>h sch t. Reply (Some []) None) \<rparr>"

definition svc0 :: svc where
  "svc0 = \<lparr> isInitialized = False, connectionPromise = None, currentUser = None,
            userProfile = None, log = [] \<rparr>"

text \<open>The service after alice signed in and a connection test passed.\<close>

definition svc_alice :: svc where
  "svc_alice = \<lparr> isInitialized = True, connectionPromise = Some True, currentUser = Some alice,
                 userProfile = None, log = [] \<rparr>"





section \<open>Auxiliary notions for the statements\<close>

text \<open>
  The state in which the function wrapped by \<open>executeWithErrorHandling\<close> starts when the
  connection test passes: after \<open>testConnection\<close> and, with an identity, \<open>ensureUserProfile\<close>.
\<close>

definition prepared :: "env \<Rightarrow> remote \<Rightarrow> svc \<Rightarrow> svc" where
  "prepared E R s =
     (let s1 = snd (testConnection E R s)
      in if currentUser s1 \<noteq> None then snd (ensureUserProfile R s1) else s1)"



section \<open>A serialisation for the concrete runs\<close>

text \<open>
  \<open>JSON.stringify\<close> on a prep list whose properties were set in the order of the interface;
  a property that is \<open>undefined\<close> is left out. Only quotes and backslashes are escaped.
\<close>

fun json_escape :: "string \<Rightarrow> string" where
  "json_escape [] = []"
| "json_escape (c # cs) =
     (if c = CHR 0x22 \<or> c = CHR 0x5C then [CHR 0x5C, c] else [c]) @ json_escape cs"

definition json_string :: "string \<Rightarrow> string" where
  "json_string x = [CHR 0x22] @ json_escape x @ [CHR 0x22]"

fun join :: "string \<Rightarrow> string list \<Rightarrow> string" where
  "join sep [] = []"
| "join sep [x] = x"
| "join sep (x # y # ys) = x @ sep @ join sep (y # ys)"

definition json_object :: "(string \<times> string option) list \<Rightarrow> string" where
  "json_object props =
     ''{'' @ join '','' (concat (map (\<lambda>(k, v). case v of None \<Rightarrow> [] | Some j \<Rightarrow> [json_string k @ '':'' @ j]) props)) @ ''}''"

definition json_array :: "string list \<Rightarrow> string" where
  "json_array xs = ''['' @ join '','' xs @ '']''"

definition json_PrepItem :: "PrepItem \<Rightarrow> string" where
  "json_PrepItem i =
     json_object
       [(''id'', Some (json_string (pi_id i))), (''name'', Some (json_string (pi_name i))),
        (''quantity'', Some (json_string (pi_quantity i))), (''unit'', Some (json_string (pi_unit i))),
        (''category'', map_option json_string (pi_category i)),
        (''completed'', map_option (\<lambda>b. if b then ''true'' else ''false'') (pi_completed i)),
        (''assignedTo'', map_option json_string (pi_assignedTo i)),
        (''notes'', map_option json_string (pi_notes i))]"

definition JSON_stringify :: "PrepList \<Rightarrow> string" where
  "JSON_stringify p =
     json_object
       [(''id'', map_option json_string (pl_id p)), (''name'', map_option json_string (pl_name p)),
        (''items'', map_option (\<lambda>xs. json_array (map json_PrepItem xs)) (pl_items p)),
        (''company_id'', map_option json_string (pl_company_id p)),
        (''created_at'', map_option json_string (pl_created_at p)),
        (''updated_at'', map_option json_string (pl_updated_at p))]"


section \<open>Concrete entities and rows\<close>



definition row_ok :: prep_list_row where
  "row_ok = \<lparr> plr_id = Some ''p1'', plr_name = Some ''Dinner Prep'', plr_items = None,
               plr_company_id = None, plr_user_id = Some ''u1'',
               plr_created_at = Some ''t0'', plr_updated_at = Some ''t0'' \<rparr>"








text \<open>
  \<open>s'\<close> is \<open>s\<close> after some more requests, all of them in \<open>P\<close>; a reachability probe that
  failed.
\<close>

definition extends_log :: "(request \<Rightarrow> bool) \<Rightarrow> svc \<Rightarrow> svc \<Rightarrow> bool" where
  "extends_log P s s' = (\<exists>ys. s' = s\<lparr>log := log s @ ys\<rparr> \<and> (\<forall>q\<in>set ys. P q))"




text \<open>A remote whose reachability probes all fail.\<close>

definition remote_down :: remote where
  "remote_down = remote_ok\<lparr> selectIdLimit1 := (\<lambda>h t. Throws server_down) \<rparr>"


text \<open>
  The lock map and the promises in flight agree: a promise in flight holds the lock of its
  key, a lock is held by a promise in flight, and promises not yet created are not in flight.
\<close>

definition lock_inv :: "lk_svc \<Rightarrow> bool" where
  "lock_inv s =
     ((\<forall>p k. pending s p = Some k \<longrightarrow> operationLocks s k = Some p) \<and>
      (\<forall>k p. operationLocks s k = Some p \<longrightarrow> pending s p = Some k) \<and>
      (\<forall>p. next_promise s \<le> p \<longrightarrow> pending s p = None))"


text \<open>A prep list, and a remote that answers every upsert with a duplicate-key error.\<close>

definition lunch :: PrepList where
  "lunch = \<lparr> pl_id = Some ''p1'', pl_name = Some ''Lunch'', pl_items = Some [],
              pl_company_id = None, pl_created_at = None, pl_updated_at = None \<rparr>"

definition duplicate_key :: js_error where
  "duplicate_key = JsError ''duplicate key value violates unique constraint'' (Some ''23505'') False"

definition remote_dup :: remote where
  "remote_dup =
     remote_ok\<lparr> upsertPrepList := (\<lambda>h row. Reply None (Some duplicate_key)),
                selectPrepListById := (\<lambda>h i. Reply (Some row_ok) None) \<rparr>"


text \<open>The key under which \<open>savePrepList\<close> locks and records.\<close>

definition saveKey :: "(PrepList \<Rightarrow> string) \<Rightarrow> PrepList \<Rightarrow> string" where
  "saveKey stringify p = generateOperationKey stringify ''savePrepList'' p"










section \<open>Round trip through the wire format\<close>






section \<open>The save pipeline of the profile-caching service\<close>


lemma log_issue [simp]: "log (issue q s) = log s @ [q]"
  by (simp add: issue_def)




lemma ensureUserProfile_log:
  "\<exists>ys. log (snd (ensureUserProfile R s)) = log s @ ys \<and> (\<forall>q\<in>set ys. \<not> is_entity_write q)"
  by (auto simp: ensureUserProfile_def createProfile_def Let_def split: option.splits reply.splits)

lemma ensureUserProfile_currentUser [simp]:
  "currentUser (snd (ensureUserProfile R s)) = currentUser s"
  by (auto simp: ensureUserProfile_def createProfile_def Let_def issue_def split: option.splits reply.splits)

lemma not_write_not_entity_write: "\<not> is_write q \<Longrightarrow> \<not> is_entity_write q"
  by (cases q) auto

lemma reclassify_connection_error [simp]: "reclassify connection_error = connection_error"
  by (simp add: reclassify_def connection_error_def Error_def)

lemma reclassify_validation_error_prep [simp]: "reclassify validation_error_prep = validation_error_prep"
  by (simp add: reclassify_def validation_error_prep_def Error_def)

lemma reclassify_auth_error_prep [simp]: "reclassify auth_error_prep = auth_error_prep"
  by (simp add: reclassify_def auth_error_prep_def Error_def)

lemma reclassify_validation_error_recipe [simp]: "reclassify validation_error_recipe = validation_error_recipe"
  by (simp add: reclassify_def validation_error_recipe_def Error_def)

lemma reclassify_auth_error_recipe [simp]: "reclassify auth_error_recipe = auth_error_recipe"
  by (simp add: reclassify_def auth_error_recipe_def Error_def)


lemma prepared_currentUser [simp]:
  "currentUser (prepared E R s) = currentUser (snd (testConnection E R s))"
  by (simp add: prepared_def Let_def)








section \<open>Rejection of entities without id or name\<close>























section \<open>The profile cache\<close>

text \<open>
  C7: \<open>ensureUserProfile\<close> returns \<open>null\<close> and does nothing without an identity; with an
  identity and a cached profile it returns the cached profile and issues no request;
  otherwise its first request fetches the profile by the identity's id, a hit is returned and
  cached, and on a miss the second and last request is an upsert with conflict target \<open>id\<close> of
  the identity's id and email, its display name or \<open>null\<close>, and role \<open>user\<close>, whose row is
  returned and cached on success, while any failure of it (an error or an exception) gives
  \<open>null\<close>.
\<close>

theorem C7_ensureUserProfile:
  "(currentUser s = None \<longrightarrow> ensureUserProfile R s = (None, s)) \<and>
   (currentUser s = Some u \<and> userProfile s = Some p \<longrightarrow> ensureUserProfile R s = (Some p, s)) \<and>
   (currentUser s = Some u \<and> userProfile s = None \<longrightarrow>
      (\<exists>rest. log (snd (ensureUserProfile R s)) = log s @ SelectProfile (u_id u) # rest) \<and>
      (selectProfile R (log s) (u_id u) = Reply (Some existing) None \<longrightarrow>
         ensureUserProfile R s
           = (Some existing, (issue (SelectProfile (u_id u)) s)\<lparr>userProfile := Some existing\<rparr>)) \<and>
      (selectProfile R (log s) (u_id u) = Reply None fetchError \<longrightarrow>
         log (snd (ensureUserProfile R s))
           = log s @ [SelectProfile (u_id u),
                      UpsertProfile \<lparr>np_id = u_id u, np_email = u_email u,
                                     np_full_name = or_null (u_full_name u), np_role = ''user''\<rparr>
                                    \<lparr>onConflict = Some ''id'', ignoreDuplicates = None\<rparr>] \<and>
         (upsertProfile R (log s @ [SelectProfile (u_id u)]) (newProfile u) = Reply created None \<longrightarrow>
            fst (ensureUserProfile R s) = created \<and>
            userProfile (snd (ensureUserProfile R s)) = created) \<and>
         ((\<forall>c. upsertProfile R (log s @ [SelectProfile (u_id u)]) (newProfile u) \<noteq> Reply c None) \<longrightarrow>
            fst (ensureUserProfile R s) = None \<and>
            userProfile (snd (ensureUserProfile R s)) = None)))"
  by (auto simp: ensureUserProfile_def createProfile_def issue_def newProfile_def Let_def
      split: option.splits reply.splits)

theorem C7_ensureUserProfile_witness:
  "ensureUserProfile remote_ok svc0 = (None, svc0) \<and>
   ensureUserProfile remote_ok (svc_alice\<lparr>userProfile := Some (profile_of (newProfile alice))\<rparr>)
     = (Some (profile_of (newProfile alice)), svc_alice\<lparr>userProfile := Some (profile_of (newProfile alice))\<rparr>) \<and>
   fst (ensureUserProfile remote_ok svc_alice) = Some (profile_of (newProfile alice)) \<and>
   log (snd (ensureUserProfile remote_ok svc_alice))
     = [SelectProfile ''u1'',
        UpsertProfile \<lparr>np_id = ''u1'', np_email = Some ''alice@example.com'',
                       np_full_name = Some ''Alice'', np_role = ''user''\<rparr>
                      \<lparr>onConflict = Some ''id'', ignoreDuplicates = None\<rparr>] \<and>
   fst (ensureUserProfile (remote_ok\<lparr>upsertProfile := (\<lambda>h np. Throws server_down)\<rparr>) svc_alice) = None"
  using C7_ensureUserProfile [where s = svc0 and R = remote_ok and u = alice]
    C7_ensureUserProfile [where s = "svc_alice\<lparr>userProfile := Some (profile_of (newProfile alice))\<rparr>"
      and R = remote_ok and u = alice and p = "profile_of (newProfile alice)"]
    C7_ensureUserProfile [where s = svc_alice and R = remote_ok and u = alice
      and fetchError = "Some not_found" and created = "Some (profile_of (newProfile alice))"]
    C7_ensureUserProfile [where s = svc_alice and R = "remote_ok\<lparr>upsertProfile := (\<lambda>h np. Throws server_down)\<rparr>"
      and u = alice and fetchError = "Some not_found"]
  by (simp add: svc0_def svc_alice_def remote_ok_def alice_def or_null_def truthy_def newProfile_def)


section \<open>Loading\<close>








section \<open>Connection diagnosis\<close>



lemma extends_log_refl [simp]: "extends_log P s s"
  by (auto simp: extends_log_def intro: exI [of _ "[]"])

lemma extends_log_trans:
  "extends_log P s s1 \<Longrightarrow> extends_log P s1 s2 \<Longrightarrow> extends_log P s s2"
  unfolding extends_log_def
proof (elim exE conjE)
  fix ys zs
  assume "s1 = s\<lparr>log := log s @ ys\<rparr>" "\<forall>q\<in>set ys. P q" "s2 = s1\<lparr>log := log s1 @ zs\<rparr>" "\<forall>q\<in>set zs. P q"
  then have "s2 = s\<lparr>log := log s @ (ys @ zs)\<rparr> \<and> (\<forall>q\<in>set (ys @ zs). P q)" by auto
  then show "\<exists>ys. s2 = s\<lparr>log := log s @ ys\<rparr> \<and> (\<forall>q\<in>set ys. P q)" by blast
qed

lemma extends_log_issue: "P q \<Longrightarrow> extends_log P s (issue q s)"
  by (auto simp: extends_log_def issue_def intro: exI [of _ "[q]"])

lemma extends_log_mono: "extends_log P s s' \<Longrightarrow> (\<And>q. P q \<Longrightarrow> Q q) \<Longrightarrow> extends_log Q s s'"
  by (auto simp: extends_log_def)

lemma probeTable_state: "snd (probeTable R t (d, s)) = issue (SelectIdLimit1 t) s"
  by (simp add: probeTable_def Let_def split: reply.splits option.splits)

lemma probeTable_reads: "extends_log (\<lambda>q. \<not> is_write q) (snd ds) (snd (probeTable R t ds))"
  by (cases ds) (simp add: probeTable_state extends_log_issue)

lemma checkRls_reads: "extends_log (\<lambda>q. \<not> is_write q) (snd ds) (snd (checkRls R q ds))"
proof -
  obtain t sch d s where [simp]: "q = (t, sch)" "ds = (d, s)"
    by (cases q, cases ds) auto
  have 1: "extends_log (\<lambda>q. \<not> is_write q) s (issue (SelectPgClass t) s)"
    by (simp add: extends_log_issue)
  have 2: "extends_log (\<lambda>q. \<not> is_write q) s (issue (SelectPgPolicies sch t) (issue (SelectPgClass t) s))"
    by (rule extends_log_trans [OF 1]) (simp add: extends_log_issue)
  show ?thesis
    using 1 2 by (simp add: checkRls_def Let_def split: reply.splits)
qed

lemma fold_reads:
  assumes "\<And>x ds. extends_log P (snd ds) (snd (f x ds))"
  shows "extends_log P (snd ds) (snd (fold f xs ds))"
proof (induction xs arbitrary: ds)
  case Nil
  show ?case by simp
next
  case (Cons x xs)
  show ?case
    using extends_log_trans [OF assms [of ds x] Cons.IH [of "f x ds"]] by simp
qed


lemma ensureUserProfile_idle:
  "currentUser s = None \<or> userProfile s \<noteq> None \<Longrightarrow> snd (ensureUserProfile R s) = s"
  by (auto simp: ensureUserProfile_def split: option.splits)

lemma ensureUserProfile_shape:
  "\<exists>L P. snd (ensureUserProfile R s) = s\<lparr>log := L, userProfile := P\<rparr>"
proof -
  have "snd (ensureUserProfile R s)
      = s\<lparr>log := log (snd (ensureUserProfile R s)), userProfile := userProfile (snd (ensureUserProfile R s))\<rparr>"
    by (simp add: ensureUserProfile_def createProfile_def issue_def Let_def
        split: reply.splits option.splits)
  then show ?thesis by blast
qed

text \<open>What a diagnosis may do to the service: \<open>s'\<close> is \<open>s\<close> up to the log and the profile cache.\<close>

lemma diagnoseTry_frame:
  "\<exists>ys P. snd (snd (diagnoseTry E R s)) = s\<lparr>log := log s @ ys, userProfile := P\<rparr> \<and>
     (\<forall>q\<in>set ys. \<not> is_entity_write q) \<and>
     (currentUser s = None \<or> userProfile s \<noteq> None \<longrightarrow> P = userProfile s \<and> (\<forall>q\<in>set ys. \<not> is_write q))"
proof -
  define G where "G = (\<lambda>s'. \<exists>ys P. s' = s\<lparr>log := log s @ ys, userProfile := P\<rparr> \<and>
     (\<forall>q\<in>set ys. \<not> is_entity_write q) \<and>
     (currentUser s = None \<or> userProfile s \<noteq> None \<longrightarrow> P = userProfile s \<and> (\<forall>q\<in>set ys. \<not> is_write q)))"
  have same: "G s"
    unfolding G_def by (intro exI [of _ "[]"] exI [of _ "userProfile s"]) simp
  let ?s1 = "issue GetSession s"
  have one: "G ?s1"
    unfolding G_def
    by (intro exI [of _ "[GetSession]"] exI [of _ "userProfile s"]) (simp add: issue_def)
  have loops: "G (snd (fold (checkRls R) rlsQueries (fold (probeTable R) tablesToTest (d, s2))))"
    if s2: "s2 = ?s1 \<or> s2 = snd (ensureUserProfile R ?s1)" for d s2
  proof -
    have "\<exists>ys P. s2 = s\<lparr>log := log s @ GetSession # ys, userProfile := P\<rparr> \<and>
        (\<forall>q\<in>set ys. \<not> is_entity_write q) \<and>
        (currentUser s = None \<or> userProfile s \<noteq> None \<longrightarrow> P = userProfile s \<and> ys = [])"
      using s2
    proof
      assume "s2 = ?s1"
      then show ?thesis
        by (intro exI [of _ "[]"] exI [of _ "userProfile s"]) (simp add: issue_def)
    next
      assume e: "s2 = snd (ensureUserProfile R ?s1)"
      show ?thesis
      proof (cases "currentUser s = None \<or> userProfile s \<noteq> None")
        case True
        then have "s2 = ?s1"
          using e ensureUserProfile_idle [of ?s1 R] by (simp add: issue_def)
        with True show ?thesis
          by (intro exI [of _ "[]"] exI [of _ "userProfile s"]) (simp add: issue_def)
      next
        case False
        obtain L P where sh: "s2 = ?s1\<lparr>log := L, userProfile := P\<rparr>"
          using e ensureUserProfile_shape [of R ?s1] by auto
        obtain ys where ys: "log s2 = log ?s1 @ ys" "\<forall>q\<in>set ys. \<not> is_entity_write q"
          using e ensureUserProfile_log [of R ?s1] by auto
        have "L = log s @ GetSession # ys"
          using sh ys(1) by (simp add: issue_def)
        with sh False ys(2) show ?thesis
          by (intro exI [of _ ys] exI [of _ P]) (auto simp: issue_def)
      qed
    qed
    then obtain ys2 p2 where s2': "s2 = s\<lparr>log := log s @ GetSession # ys2, userProfile := p2\<rparr>"
      "\<forall>q\<in>set ys2. \<not> is_entity_write q"
      "currentUser s = None \<or> userProfile s \<noteq> None \<longrightarrow> p2 = userProfile s \<and> ys2 = []"
      by blast
    have "extends_log (\<lambda>q. \<not> is_write q) s2 (snd (fold (probeTable R) tablesToTest (d, s2)))"
      using fold_reads [of "\<lambda>q. \<not> is_write q" "probeTable R" "(d, s2)" tablesToTest] probeTable_reads
      by simp
    moreover have "extends_log (\<lambda>q. \<not> is_write q) (snd (fold (probeTable R) tablesToTest (d, s2)))
        (snd (fold (checkRls R) rlsQueries (fold (probeTable R) tablesToTest (d, s2))))"
      using fold_reads [of "\<lambda>q. \<not> is_write q" "checkRls R" _ rlsQueries] checkRls_reads
      by simp
    ultimately have "extends_log (\<lambda>q. \<not> is_write q) s2
        (snd (fold (checkRls R) rlsQueries (fold (probeTable R) tablesToTest (d, s2))))"
      by (rule extends_log_trans)
    then obtain zs where zs: "snd (fold (checkRls R) rlsQueries (fold (probeTable R) tablesToTest (d, s2)))
        = s2\<lparr>log := log s2 @ zs\<rparr>" "\<forall>q\<in>set zs. \<not> is_write q"
      unfolding extends_log_def by blast
    have "snd (fold (checkRls R) rlsQueries (fold (probeTable R) tablesToTest (d, s2)))
        = s\<lparr>log := log s @ (GetSession # ys2 @ zs), userProfile := p2\<rparr>"
      using zs(1) s2'(1) by simp
    moreover have "\<forall>q\<in>set (GetSession # ys2 @ zs). \<not> is_entity_write q"
      using s2'(2) zs(2) not_write_not_entity_write by auto
    moreover have "currentUser s = None \<or> userProfile s \<noteq> None \<longrightarrow>
        p2 = userProfile s \<and> (\<forall>q\<in>set (GetSession # ys2 @ zs). \<not> is_write q)"
      using s2'(3) zs(2) by auto
    ultimately show ?thesis unfolding G_def by blast
  qed
  have "G (snd (snd (diagnoseTry E R s)))"
    unfolding diagnoseTry_def Let_def split_def
    by (auto split: reply.splits option.splits simp del: fold_simps intro!: same one loops)
  then show ?thesis unfolding G_def .
qed

text \<open>
  C9, as stated, fails: for alice, signed in and with a passed connection test but no cached
  profile, a diagnosis clears the connection memo, fills the profile cache and creates her
  profile row on the remote.
\<close>

theorem C9_not_read_only_counterexample:
  "connectionPromise svc_alice = Some True \<and>
   connectionPromise (snd (diagnoseConnection env_ok remote_ok svc_alice)) = None \<and>
   userProfile svc_alice = None \<and>
   userProfile (snd (diagnoseConnection env_ok remote_ok svc_alice)) = Some (profile_of (newProfile alice)) \<and>
   take 3 (log (snd (diagnoseConnection env_ok remote_ok svc_alice)))
     = [GetSession, SelectProfile ''u1'',
        UpsertProfile (newProfile alice) \<lparr>onConflict = Some ''id'', ignoreDuplicates = None\<rparr>]"
  by (simp add: diagnoseConnection_def diagnoseTry_def ensureUserProfile_def createProfile_def
      probeTable_def checkRls_def tablesToTest_def rlsQueries_def svc_alice_def env_ok_def
      remote_ok_def issue_def alice_def Let_def)

text \<open>
  C9, amended: a diagnosis leaves the session identity and the initialisation flag as they
  are and always clears the connection memo; it changes the profile cache at most by what
  \<open>ensureUserProfile\<close> does; it issues no write to an entity table; and when there is no
  identity or the profile is already cached, the profile cache is unchanged and no request of
  the diagnosis writes at all.
\<close>

theorem C9_diagnose_frame:
  "\<exists>ys P. snd (diagnoseConnection E R s)
             = s\<lparr>log := log s @ ys, userProfile := P, connectionPromise := None\<rparr> \<and>
     (\<forall>q\<in>set ys. \<not> is_entity_write q) \<and>
     (currentUser s = None \<or> userProfile s \<noteq> None \<longrightarrow> P = userProfile s \<and> (\<forall>q\<in>set ys. \<not> is_write q))"
proof -
  obtain ys P where f: "snd (snd (diagnoseTry E R s)) = s\<lparr>log := log s @ ys, userProfile := P\<rparr>"
    "\<forall>q\<in>set ys. \<not> is_entity_write q"
    "currentUser s = None \<or> userProfile s \<noteq> None \<longrightarrow> P = userProfile s \<and> (\<forall>q\<in>set ys. \<not> is_write q)"
    using diagnoseTry_frame [of E R s] by blast
  have "snd (diagnoseConnection E R s)
      = s\<lparr>log := log s @ ys, userProfile := P, connectionPromise := None\<rparr>"
    using f(1) by (cases "diagnoseTry E R s") (auto simp: diagnoseConnection_def Let_def)
  with f(2,3) show ?thesis by blast
qed

theorem C9_diagnose_frame_witness:
  "currentUser svc0 = None \<and>
   userProfile (snd (diagnoseConnection env_ok remote_ok svc0)) = userProfile svc0 \<and>
   currentUser (snd (diagnoseConnection env_ok remote_ok svc0)) = currentUser svc0 \<and>
   connectionPromise (snd (diagnoseConnection env_ok remote_ok svc0)) = None \<and>
   list_all (\<lambda>q. \<not> is_write q) (log (snd (diagnoseConnection env_ok remote_ok svc0)))"
proof -
  have n: "currentUser svc0 = None" "log svc0 = []"
    by (simp_all add: svc0_def)
  obtain ys P where f: "snd (diagnoseConnection env_ok remote_ok svc0)
      = svc0\<lparr>log := log svc0 @ ys, userProfile := P, connectionPromise := None\<rparr>"
    "P = userProfile svc0 \<and> (\<forall>q\<in>set ys. \<not> is_write q)"
    using C9_diagnose_frame [of env_ok remote_ok svc0] n(1) by blast
  show ?thesis
    using f n by (simp add: list_all_iff)
qed

lemma startsWith_append [simp]: "startsWith (a @ b) a"
  by (induction a) auto













section \<open>The operation lock\<close>

lemma lock_inv_init: "lock_inv lk_init"
  by (simp add: lock_inv_def lk_init_def)

lemma lock_inv_executeWithLock: "lock_inv s \<Longrightarrow> lock_inv (snd (executeWithLock k f s))"
proof (cases "operationLocks s k")
  case None
  assume inv: "lock_inv s"
  define n where "n = next_promise s"
  define s' where "s' = snd (executeWithLock k f s)"
  have L: "operationLocks s' = (operationLocks s)(k \<mapsto> n)"
    and P: "pending s' = (pending s)(n \<mapsto> k)"
    and N: "next_promise s' = Suc n"
    using None by (simp_all add: s'_def n_def executeWithLock_def Let_def)
  have i1: "\<And>p k'. pending s p = Some k' \<Longrightarrow> operationLocks s k' = Some p"
    and i2: "\<And>k' p. operationLocks s k' = Some p \<Longrightarrow> pending s p = Some k'"
    and i3: "\<And>p. n \<le> p \<Longrightarrow> pending s p = None"
    using inv unfolding lock_inv_def n_def by blast+
  have 1: "operationLocks s' k' = Some p" if "pending s' p = Some k'" for p k'
  proof (cases "p = n")
    case True
    with that show ?thesis by (simp add: L P)
  next
    case False
    with that have "pending s p = Some k'" by (simp add: P)
    then have "operationLocks s k' = Some p" by (rule i1)
    moreover from this None have "k' \<noteq> k" by auto
    ultimately show ?thesis by (simp add: L)
  qed
  have 2: "pending s' p = Some k'" if "operationLocks s' k' = Some p" for p k'
  proof (cases "k' = k")
    case True
    with that show ?thesis by (simp add: L P)
  next
    case False
    with that have "operationLocks s k' = Some p" by (simp add: L)
    then have "pending s p = Some k'" by (rule i2)
    moreover from this i3 [of n] have "p \<noteq> n" by auto
    ultimately show ?thesis by (simp add: P)
  qed
  have 3: "pending s' p = None" if "next_promise s' \<le> p" for p
    using that i3 [of p] by (simp add: N P)
  show ?thesis
    unfolding s'_def [symmetric] lock_inv_def using 1 2 3 by blast
next
  case (Some p)
  assume "lock_inv s"
  with Some show ?thesis by (simp add: executeWithLock_def)
qed

lemma lock_inv_settle: "lock_inv s \<Longrightarrow> lock_inv (settle p out s)"
proof (cases "pending s p")
  case None
  assume "lock_inv s"
  with None show ?thesis by (simp add: settle_def)
next
  case (Some k)
  assume inv: "lock_inv s"
  define s' where "s' = settle p out s"
  have L: "operationLocks s' = (operationLocks s)(k := None)"
    and P: "pending s' = (pending s)(p := None)"
    and N: "next_promise s' = next_promise s"
    using Some by (simp_all add: s'_def settle_def)
  have i1: "\<And>q k'. pending s q = Some k' \<Longrightarrow> operationLocks s k' = Some q"
    and i2: "\<And>k' q. operationLocks s k' = Some q \<Longrightarrow> pending s q = Some k'"
    and i3: "\<And>q. next_promise s \<le> q \<Longrightarrow> pending s q = None"
    using inv unfolding lock_inv_def by blast+
  have 1: "operationLocks s' k' = Some q" if "pending s' q = Some k'" for q k'
  proof -
    from that have qp: "q \<noteq> p" and "pending s q = Some k'"
      by (auto simp: P split: if_splits)
    then have l: "operationLocks s k' = Some q" using i1 by simp
    have "k' \<noteq> k"
    proof
      assume "k' = k"
      with l i1 [OF Some] qp show False by simp
    qed
    with l show ?thesis by (simp add: L)
  qed
  have 2: "pending s' q = Some k'" if "operationLocks s' k' = Some q" for q k'
  proof -
    from that have kk: "k' \<noteq> k" and "operationLocks s k' = Some q"
      by (auto simp: L split: if_splits)
    then have pq: "pending s q = Some k'" using i2 by simp
    with Some kk have "q \<noteq> p" by auto
    with pq show ?thesis by (simp add: P)
  qed
  have 3: "pending s' q = None" if "next_promise s' \<le> q" for q
    using that i3 [of q] by (simp add: N P)
  show ?thesis
    unfolding s'_def [symmetric] lock_inv_def using 1 2 3 by blast
qed

lemma lock_inv_step: "lock_inv s \<Longrightarrow> lock_inv (step ev s)"
  by (cases ev) (simp_all add: lock_inv_executeWithLock lock_inv_settle)

lemma lock_inv_run: "lock_inv s \<Longrightarrow> lock_inv (run es s)"
  unfolding run_def by (induction es arbitrary: s) (simp_all add: lock_inv_step)

lemma lock_held_step:
  assumes inv: "lock_inv s" and held: "operationLocks s k = Some p" and ns: "\<not> settles p ev"
  shows "operationLocks (step ev s) k = Some p"
proof (cases ev)
  case (Call k' f)
  show ?thesis
  proof (cases "operationLocks s k'")
    case None
    with held have "k' \<noteq> k" by auto
    with None held Call show ?thesis by (simp add: executeWithLock_def Let_def)
  next
    case (Some q)
    with held Call show ?thesis by (simp add: executeWithLock_def)
  qed
next
  case (Settle q out)
  with ns have qp: "q \<noteq> p" by simp
  show ?thesis
  proof (cases "pending s q")
    case None
    with held Settle show ?thesis by (simp add: settle_def)
  next
    case (Some k')
    then have "operationLocks s k' = Some q" using inv unfolding lock_inv_def by blast
    with held qp have "k' \<noteq> k" by auto
    with Some held Settle show ?thesis by (simp add: settle_def)
  qed
qed

lemma lock_held_run:
  "lock_inv s \<Longrightarrow> operationLocks s k = Some p \<Longrightarrow> \<forall>ev\<in>set es. \<not> settles p ev \<Longrightarrow>
   operationLocks (run es s) k = Some p"
proof (induction es arbitrary: s)
  case Nil
  then show ?case by (simp add: run_def)
next
  case (Cons ev es)
  have "lock_inv (step ev s)" "operationLocks (step ev s) k = Some p"
    using Cons.prems lock_inv_step lock_held_step by simp_all
  then have "operationLocks (run es (step ev s)) k = Some p"
    using Cons.IH Cons.prems by simp
  then show ?case by (simp add: run_def)
qed

lemma executeWithLock_holds:
  "executeWithLock k f s = (p, s1) \<Longrightarrow> operationLocks s1 k = Some p"
  by (cases "operationLocks s k") (auto simp: executeWithLock_def Let_def)

text \<open>
  C2: let \<open>executeWithLock(k, f)\<close> be called in a reachable state and return promise \<open>p\<close>. If
  no call was in flight for \<open>k\<close>, \<open>f\<close> is invoked, once. After any further calls and
  settlements of other promises, and as long as \<open>p\<close> has not settled, \<open>executeWithLock(k, g)\<close>
  returns the same promise \<open>p\<close> and changes nothing, so \<open>g\<close> is not invoked; no other promise
  in flight belongs to \<open>k\<close>; and when \<open>p\<close> settles, fulfilled or rejected, the entry of \<open>k\<close> is
  removed from the lock map.
\<close>

theorem C2_lock_dedupes:
  assumes reach: "s = run es0 lk_init"
    and first: "executeWithLock k f s = (p, s1)"
    and unsettled: "\<forall>ev\<in>set es. \<not> settles p ev"
    and later: "s2 = run es s1"
  shows "(operationLocks s k = None \<longrightarrow> invoked s1 = invoked s @ [(p, f)]) \<and>
         executeWithLock k g s2 = (p, s2) \<and>
         invoked (snd (executeWithLock k g s2)) = invoked s2 \<and>
         (\<forall>q. pending s2 q = Some k \<longrightarrow> q = p) \<and>
         (\<forall>out. operationLocks (settle p out s2) k = None \<and>
                settled (settle p out s2) p = Some out)"
proof -
  have inv: "lock_inv s"
    using reach lock_inv_run [OF lock_inv_init] by simp
  have inv1: "lock_inv s1"
    using lock_inv_executeWithLock [OF inv, of k f] first by simp
  have held1: "operationLocks s1 k = Some p"
    using first by (rule executeWithLock_holds)
  have inv2: "lock_inv s2"
    using later lock_inv_run [OF inv1] by simp
  have held2: "operationLocks s2 k = Some p"
    using later lock_held_run [OF inv1 held1 unsettled] by simp
  have pend2: "pending s2 p = Some k"
    using inv2 held2 unfolding lock_inv_def by blast
  have a: "operationLocks s k = None \<longrightarrow> invoked s1 = invoked s @ [(p, f)]"
    using first by (cases "operationLocks s k") (auto simp: executeWithLock_def Let_def)
  have b: "executeWithLock k g s2 = (p, s2)"
    using held2 by (simp add: executeWithLock_def)
  have c: "\<forall>q. pending s2 q = Some k \<longrightarrow> q = p"
    using inv2 held2 unfolding lock_inv_def by (metis option.inject)
  have d: "\<forall>out. operationLocks (settle p out s2) k = None \<and> settled (settle p out s2) p = Some out"
    using pend2 by (simp add: settle_def)
  show ?thesis using a b c d by simp
qed

theorem C2_lock_dedupes_witness:
  "fst (executeWithLock ''deletePrepList_p1'' ''delete 1'' lk_init) = 0 \<and>
   executeWithLock ''deletePrepList_p1'' ''delete 2''
       (run [Call ''deletePrepList_p2'' ''delete 3'', Settle 1 Rejected]
          (snd (executeWithLock ''deletePrepList_p1'' ''delete 1'' lk_init)))
     = (0, run [Call ''deletePrepList_p2'' ''delete 3'', Settle 1 Rejected]
             (snd (executeWithLock ''deletePrepList_p1'' ''delete 1'' lk_init))) \<and>
   invoked (run [Call ''deletePrepList_p2'' ''delete 3'', Settle 1 Rejected]
             (snd (executeWithLock ''deletePrepList_p1'' ''delete 1'' lk_init)))
     = [(0, ''delete 1''), (1, ''delete 3'')] \<and>
   operationLocks (settle 0 Fulfilled
        (run [Call ''deletePrepList_p2'' ''delete 3'', Settle 1 Rejected]
             (snd (executeWithLock ''deletePrepList_p1'' ''delete 1'' lk_init)))) ''deletePrepList_p1'' = None"
proof -
  have e: "executeWithLock ''deletePrepList_p1'' ''delete 1'' lk_init
      = (0, snd (executeWithLock ''deletePrepList_p1'' ''delete 1'' lk_init))"
    by (simp add: executeWithLock_def lk_init_def Let_def)
  have e0: "fst (executeWithLock ''deletePrepList_p1'' ''delete 1'' lk_init) = 0"
    by (simp add: executeWithLock_def lk_init_def Let_def)
  have i: "invoked (run [Call ''deletePrepList_p2'' ''delete 3'', Settle 1 Rejected]
             (snd (executeWithLock ''deletePrepList_p1'' ''delete 1'' lk_init)))
     = [(0, ''delete 1''), (1, ''delete 3'')]"
    by (simp add: run_def executeWithLock_def settle_def lk_init_def Let_def)
  show ?thesis
    using C2_lock_dedupes [where ?es0.0 = "[]" and s = lk_init and k = "''deletePrepList_p1''"
        and f = "''delete 1''" and g = "''delete 2''" and p = 0
        and ?s1.0 = "snd (executeWithLock ''deletePrepList_p1'' ''delete 1'' lk_init)"
        and es = "[Call ''deletePrepList_p2'' ''delete 3'', Settle 1 Rejected]", OF _ e _ refl]
      e0 i
    by (simp add: run_def)
qed

section \<open>Suppression of recent duplicates\<close>

lemma testConnection_lk_fields [simp]:
  "recentOperations (snd (testConnection_lk E R now s)) = recentOperations s"
  "operationLocks (snd (testConnection_lk E R now s)) = operationLocks s"
  "pending (snd (testConnection_lk E R now s)) = pending s"
  by (simp_all add: testConnection_lk_def lk_issue_def Let_def split: option.splits reply.splits prod.splits)

lemma testConnection_lk_cong:
  assumes "connectionCache s' = connectionCache s" "lk_log s' = lk_log s"
  shows "fst (testConnection_lk E R now s') = fst (testConnection_lk E R now s)"
    and "lk_log (snd (testConnection_lk E R now s')) = lk_log (snd (testConnection_lk E R now s))"
  using assms
  by (simp_all add: testConnection_lk_def lk_issue_def Let_def split: option.splits reply.splits prod.splits)

lemma savePrepList_op_fields:
  "operationLocks (snd (savePrepList_op E R t_conn t_done key p s)) = operationLocks s"
  "pending (snd (savePrepList_op E R t_conn t_done key p s)) = pending s"
  "k' \<noteq> key \<Longrightarrow> recentOperations (snd (savePrepList_op E R t_conn t_done key p s)) k' = recentOperations s k'"
proof -
  obtain b s1 where tc: "testConnection_lk E R t_conn s = (b, s1)"
    by (cases "testConnection_lk E R t_conn s")
  have f: "operationLocks s1 = operationLocks s" "pending s1 = pending s"
    "recentOperations s1 = recentOperations s"
    using testConnection_lk_fields [of E R t_conn s] tc by simp_all
  show "operationLocks (snd (savePrepList_op E R t_conn t_done key p s)) = operationLocks s"
    using tc f by (simp add: savePrepList_op_def lk_issue_def Let_def split: reply.splits option.splits)
  show "pending (snd (savePrepList_op E R t_conn t_done key p s)) = pending s"
    using tc f by (simp add: savePrepList_op_def lk_issue_def Let_def split: reply.splits option.splits)
  show "k' \<noteq> key \<Longrightarrow> recentOperations (snd (savePrepList_op E R t_conn t_done key p s)) k' = recentOperations s k'"
    using tc f by (simp add: savePrepList_op_def lk_issue_def Let_def split: reply.splits option.splits)
qed

lemma savePrepList_op_success:
  assumes conn: "fst (testConnection_lk E R t_conn s)"
    and valid: "truthy (pl_id p)" "truthy (pl_name p)"
    and ok: "upsertPrepList R (lk_log (snd (testConnection_lk E R t_conn s))) (upsertPayload_lk p) = Reply d None"
  shows "lk_log (snd (savePrepList_op E R t_conn t_done key p s))
           = lk_log (snd (testConnection_lk E R t_conn s)) @ [UpsertPrepList (upsertPayload_lk p) no_options]"
    and "recentOperations (snd (savePrepList_op E R t_conn t_done key p s)) key = Some (t_done, p)"
    and "fst (savePrepList_op E R t_conn t_done key p s)
           = (case d of None \<Rightarrow> Inl TypeError_null | Some dt \<Rightarrow> Inr (savedPrepList_lk dt))"
proof -
  obtain b s1 where tc: "testConnection_lk E R t_conn s = (b, s1)"
    by (cases "testConnection_lk E R t_conn s")
  with conn have b: "b" by simp
  from ok tc have ok1: "upsertPrepList R (lk_log s1) (upsertPayload_lk p) = Reply d None" by simp
  show "lk_log (snd (savePrepList_op E R t_conn t_done key p s))
           = lk_log (snd (testConnection_lk E R t_conn s)) @ [UpsertPrepList (upsertPayload_lk p) no_options]"
    using tc b valid ok1 by (simp add: savePrepList_op_def lk_issue_def Let_def split: option.splits)
  show "recentOperations (snd (savePrepList_op E R t_conn t_done key p s)) key = Some (t_done, p)"
    using tc b valid ok1 by (simp add: savePrepList_op_def lk_issue_def Let_def split: option.splits)
  show "fst (savePrepList_op E R t_conn t_done key p s)
           = (case d of None \<Rightarrow> Inl TypeError_null | Some dt \<Rightarrow> Inr (savedPrepList_lk dt))"
    using tc b valid ok1 by (simp add: savePrepList_op_def lk_issue_def Let_def split: option.splits)
qed

text \<open>The state in which the locked operation starts, and what the release leaves of its result.\<close>

lemma withLock_free:
  assumes free: "operationLocks s key = None"
  shows "\<exists>s1. connectionCache s1 = connectionCache s \<and> lk_log s1 = lk_log s \<and>
           recentOperations s1 = recentOperations s \<and>
           fst (withLock key operation body s) = Settled (fst (body s1)) \<and>
           (pending (snd (body s1)) = pending s1 \<longrightarrow>
              operationLocks (snd (withLock key operation body s))
                = (operationLocks (snd (body s1)))(key := None)) \<and>
           lk_log (snd (withLock key operation body s)) = lk_log (snd (body s1)) \<and>
           recentOperations (snd (withLock key operation body s)) = recentOperations (snd (body s1))"
proof -
  define n where "n = next_promise s"
  define s1 where "s1 = s\<lparr> invoked := invoked s @ [(n, operation)],
                             pending := (pending s)(n \<mapsto> key),
                             next_promise := Suc n,
                             operationLocks := (operationLocks s)(key \<mapsto> n) \<rparr>"
  have e: "executeWithLock key operation s = (n, s1)"
    using free by (simp add: executeWithLock_def Let_def s1_def n_def)
  obtain r s2 where b: "body s1 = (r, s2)" by (cases "body s1")
  have w: "withLock key operation body s
      = (Settled r, settle n (case r of Inl e \<Rightarrow> Rejected | Inr v \<Rightarrow> Fulfilled) s2)"
    using free e b by (simp add: withLock_def)
  have p1: "pending s1 n = Some key" by (simp add: s1_def)
  have st: "lk_log (settle n out s2) = lk_log s2" "recentOperations (settle n out s2) = recentOperations s2" for out
    by (simp_all add: settle_def split: option.splits)
  have rel: "pending s2 = pending s1 \<longrightarrow> operationLocks (settle n out s2) = (operationLocks s2)(key := None)" for out
    using p1 by (simp add: settle_def)
  show ?thesis
    using w b st rel
    by (intro exI [of _ s1]) (simp add: s1_def)
qed

lemma isDuplicateOperation_fields:
  "connectionCache (snd (isDuplicateOperation stringify now key p s)) = connectionCache s"
  "lk_log (snd (isDuplicateOperation stringify now key p s)) = lk_log s"
  "operationLocks (snd (isDuplicateOperation stringify now key p s)) = operationLocks s"
  "k' \<noteq> key \<Longrightarrow> recentOperations (snd (isDuplicateOperation stringify now key p s)) k' = recentOperations s k'"
  by (simp_all add: isDuplicateOperation_def split: option.splits prod.splits)

lemma savePrepList_lk_fresh:
  "\<not> fst (isDuplicateOperation stringify t_check (saveKey stringify p) p s) \<Longrightarrow>
   savePrepList_lk stringify E R t_check t_conn t_done p s
     = withLock (saveKey stringify p) ''savePrepList''
         (savePrepList_op E R t_conn t_done (saveKey stringify p) p)
         (snd (isDuplicateOperation stringify t_check (saveKey stringify p) p s))"
  by (cases "isDuplicateOperation stringify t_check (saveKey stringify p) p s")
    (simp add: savePrepList_lk_def saveKey_def Let_def)

lemma savePrepList_lk_writes:
  assumes fresh: "\<not> fst (isDuplicateOperation stringify t_check (saveKey stringify p) p s)"
    and free: "operationLocks s (saveKey stringify p) = None"
    and conn: "fst (testConnection_lk E R t_conn s)"
    and valid: "truthy (pl_id p)" "truthy (pl_name p)"
    and ok: "upsertPrepList R (lk_log (snd (testConnection_lk E R t_conn s))) (upsertPayload_lk p)
               = Reply (Some dt) None"
  shows "fst (savePrepList_lk stringify E R t_check t_conn t_done p s) = Settled (Inr (savedPrepList_lk dt)) \<and>
      lk_log (snd (savePrepList_lk stringify E R t_check t_conn t_done p s))
        = lk_log (snd (testConnection_lk E R t_conn s)) @ [UpsertPrepList (upsertPayload_lk p) no_options] \<and>
      recentOperations (snd (savePrepList_lk stringify E R t_check t_conn t_done p s)) (saveKey stringify p)
        = Some (t_done, p) \<and>
      operationLocks (snd (savePrepList_lk stringify E R t_check t_conn t_done p s)) (saveKey stringify p) = None"
proof -
  let ?key = "saveKey stringify p"
  let ?s0 = "snd (isDuplicateOperation stringify t_check ?key p s)"
  let ?body = "savePrepList_op E R t_conn t_done ?key p"
  have free0: "operationLocks ?s0 ?key = None"
    using free by (simp add: isDuplicateOperation_fields)
  obtain s1 where s1: "connectionCache s1 = connectionCache ?s0" "lk_log s1 = lk_log ?s0"
    "fst (withLock ?key ''savePrepList'' ?body ?s0) = Settled (fst (?body s1))"
    "pending (snd (?body s1)) = pending s1 \<longrightarrow>
       operationLocks (snd (withLock ?key ''savePrepList'' ?body ?s0))
         = (operationLocks (snd (?body s1)))(?key := None)"
    "lk_log (snd (withLock ?key ''savePrepList'' ?body ?s0)) = lk_log (snd (?body s1))"
    "recentOperations (snd (withLock ?key ''savePrepList'' ?body ?s0)) = recentOperations (snd (?body s1))"
    using withLock_free [OF free0, of "''savePrepList''" ?body] by blast
  have same: "connectionCache s1 = connectionCache s" "lk_log s1 = lk_log s"
    using s1(1,2) by (simp_all add: isDuplicateOperation_fields)
  have conn1: "fst (testConnection_lk E R t_conn s1)"
    using conn testConnection_lk_cong(1) [OF same] by simp
  have log1: "lk_log (snd (testConnection_lk E R t_conn s1)) = lk_log (snd (testConnection_lk E R t_conn s))"
    using testConnection_lk_cong(2) [OF same] by simp
  have ok1: "upsertPrepList R (lk_log (snd (testConnection_lk E R t_conn s1))) (upsertPayload_lk p)
               = Reply (Some dt) None"
    using ok log1 by simp
  note succ = savePrepList_op_success [OF conn1 valid ok1, of t_done ?key]
  have "operationLocks (snd (withLock ?key ''savePrepList'' ?body ?s0)) ?key = None"
    using s1(4) savePrepList_op_fields(2) [of E R t_conn t_done ?key p s1] by simp
  then show ?thesis
    using savePrepList_lk_fresh [OF fresh, of E R t_conn t_done] s1(3,5,6) succ log1
    by simp
qed

lemma savePrepList_lk_other_keys:
  assumes "k' \<noteq> saveKey stringify p"
  shows "recentOperations (snd (savePrepList_lk stringify E R t_check t_conn t_done p s)) k' = recentOperations s k'"
proof (cases "fst (isDuplicateOperation stringify t_check (saveKey stringify p) p s)")
  case True
  then have "snd (savePrepList_lk stringify E R t_check t_conn t_done p s)
      = snd (isDuplicateOperation stringify t_check (saveKey stringify p) p s)"
    by (cases "isDuplicateOperation stringify t_check (saveKey stringify p) p s")
      (simp add: savePrepList_lk_def saveKey_def Let_def)
  then show ?thesis using assms by (simp add: isDuplicateOperation_fields)
next
  case False
  let ?key = "saveKey stringify p"
  let ?s0 = "snd (isDuplicateOperation stringify t_check ?key p s)"
  let ?body = "savePrepList_op E R t_conn t_done ?key p"
  have r0: "recentOperations ?s0 k' = recentOperations s k'"
    using assms by (simp add: isDuplicateOperation_fields)
  show ?thesis
  proof (cases "operationLocks ?s0 ?key")
    case None
    obtain s1 where s1: "recentOperations s1 = recentOperations ?s0"
      "recentOperations (snd (withLock ?key ''savePrepList'' ?body ?s0)) = recentOperations (snd (?body s1))"
      using withLock_free [OF None, of "''savePrepList''" ?body] by blast
    show ?thesis
      using savePrepList_lk_fresh [OF False, of E R t_conn t_done] s1 r0
        savePrepList_op_fields(3) [OF assms, where s = s1 and E = E and R = R and t_conn = t_conn and t_done = t_done and p = p]
      by simp
  next
    case (Some q)
    then have "snd (withLock ?key ''savePrepList'' ?body ?s0) = ?s0"
      by (simp add: withLock_def executeWithLock_def)
    then show ?thesis
      using savePrepList_lk_fresh [OF False, of E R t_conn t_done] r0 by simp
  qed
qed

text \<open>
  C3, as stated, fails: a save that completes successfully through the recovery from a
  duplicate-key error stores no record.
\<close>

theorem C3_unrecorded_save_counterexample:
  "fst (savePrepList_lk JSON_stringify env_ok remote_dup 0 0 0 lunch lk_init)
     = Settled (Inr (lunch\<lparr>pl_name := Some ''Dinner Prep''\<rparr>)) \<and>
   saveKey JSON_stringify lunch = ''prepList_p1_Lunch'' \<and>
   recentOperations (snd (savePrepList_lk JSON_stringify env_ok remote_dup 0 0 0 lunch lk_init))
     ''prepList_p1_Lunch'' = None"
  by (simp add: savePrepList_lk_def generateOperationKey_def saveKey_def isDuplicateOperation_def
      withLock_def executeWithLock_def settle_def savePrepList_op_def testConnection_lk_def
      lk_init_def env_ok_def remote_dup_def remote_ok_def lk_issue_def truthy_def lunch_def
      upsertPayload_lk_def savedPrepList_lk_def row_ok_def duplicate_key_def template_def
      str_or_def array_or_empty_def Let_def)

text \<open>
  C3, amended, for \<open>savePrepList\<close> of the lock and dedupe service. A call whose key has a
  record not older than 2000 ms with a payload that serializes like the call's payload
  returns its input and changes nothing: no request is issued. A lookup that finds a record
  older than 2000 ms deletes it. A call that is not suppressed, finds no call in flight for
  its key, passes the connection test and validation and whose upsert succeeds issues that
  upsert as its last request, records the time and the payload under the key and releases
  the lock. No call touches the record of another key.
\<close>

theorem C3_dedupe:
  "(recentOperations s (saveKey stringify p) = Some (ts, p0) \<and> stringify p0 = stringify p \<and>
    t_check - ts \<le> DUPLICATE_WINDOW \<longrightarrow>
      savePrepList_lk stringify E R t_check t_conn t_done p s = (Settled (Inr p), s)) \<and>
   (recentOperations s (saveKey stringify p) = Some (ts, p0) \<and> t_check - ts > DUPLICATE_WINDOW \<longrightarrow>
      isDuplicateOperation stringify t_check (saveKey stringify p) p s
        = (False, s\<lparr>recentOperations := (recentOperations s)(saveKey stringify p := None)\<rparr>)) \<and>
   (\<not> fst (isDuplicateOperation stringify t_check (saveKey stringify p) p s) \<and>
    operationLocks s (saveKey stringify p) = None \<and>
    fst (testConnection_lk E R t_conn s) \<and> truthy (pl_id p) \<and> truthy (pl_name p) \<and>
    upsertPrepList R (lk_log (snd (testConnection_lk E R t_conn s))) (upsertPayload_lk p)
      = Reply (Some dt) None \<longrightarrow>
      fst (savePrepList_lk stringify E R t_check t_conn t_done p s) = Settled (Inr (savedPrepList_lk dt)) \<and>
      lk_log (snd (savePrepList_lk stringify E R t_check t_conn t_done p s))
        = lk_log (snd (testConnection_lk E R t_conn s)) @ [UpsertPrepList (upsertPayload_lk p) no_options] \<and>
      recentOperations (snd (savePrepList_lk stringify E R t_check t_conn t_done p s)) (saveKey stringify p)
        = Some (t_done, p) \<and>
      operationLocks (snd (savePrepList_lk stringify E R t_check t_conn t_done p s)) (saveKey stringify p) = None) \<and>
   (\<forall>k'. k' \<noteq> saveKey stringify p \<longrightarrow>
      recentOperations (snd (savePrepList_lk stringify E R t_check t_conn t_done p s)) k' = recentOperations s k')"
proof (intro conjI impI allI)
  assume "recentOperations s (saveKey stringify p) = Some (ts, p0) \<and> stringify p0 = stringify p \<and>
    t_check - ts \<le> DUPLICATE_WINDOW"
  then show "savePrepList_lk stringify E R t_check t_conn t_done p s = (Settled (Inr p), s)"
    by (simp add: savePrepList_lk_def saveKey_def isDuplicateOperation_def Let_def)
next
  assume "recentOperations s (saveKey stringify p) = Some (ts, p0) \<and> t_check - ts > DUPLICATE_WINDOW"
  then show "isDuplicateOperation stringify t_check (saveKey stringify p) p s
        = (False, s\<lparr>recentOperations := (recentOperations s)(saveKey stringify p := None)\<rparr>)"
    by (simp add: isDuplicateOperation_def)
next
  assume a: "\<not> fst (isDuplicateOperation stringify t_check (saveKey stringify p) p s) \<and>
    operationLocks s (saveKey stringify p) = None \<and>
    fst (testConnection_lk E R t_conn s) \<and> truthy (pl_id p) \<and> truthy (pl_name p) \<and>
    upsertPrepList R (lk_log (snd (testConnection_lk E R t_conn s))) (upsertPayload_lk p)
      = Reply (Some dt) None"
  note w = savePrepList_lk_writes [of stringify t_check p s E R t_conn dt t_done]
  show "fst (savePrepList_lk stringify E R t_check t_conn t_done p s) = Settled (Inr (savedPrepList_lk dt))"
    using a w by blast
  show "lk_log (snd (savePrepList_lk stringify E R t_check t_conn t_done p s))
        = lk_log (snd (testConnection_lk E R t_conn s)) @ [UpsertPrepList (upsertPayload_lk p) no_options]"
    using a w by blast
  show "recentOperations (snd (savePrepList_lk stringify E R t_check t_conn t_done p s)) (saveKey stringify p)
        = Some (t_done, p)"
    using a w by blast
  show "operationLocks (snd (savePrepList_lk stringify E R t_check t_conn t_done p s)) (saveKey stringify p) = None"
    using a w by blast
next
  fix k'
  assume "k' \<noteq> saveKey stringify p"
  then show "recentOperations (snd (savePrepList_lk stringify E R t_check t_conn t_done p s)) k' = recentOperations s k'"
    by (rule savePrepList_lk_other_keys)
qed

lemma first_save_lunch:
  "fst (savePrepList_lk JSON_stringify env_ok remote_ok 0 0 10 lunch lk_init) = Settled (Inr lunch)"
  "recentOperations (snd (savePrepList_lk JSON_stringify env_ok remote_ok 0 0 10 lunch lk_init))
     ''prepList_p1_Lunch'' = Some (10, lunch)"
  "operationLocks (snd (savePrepList_lk JSON_stringify env_ok remote_ok 0 0 10 lunch lk_init))
     ''prepList_p1_Lunch'' = None"
  "connectionCache (snd (savePrepList_lk JSON_stringify env_ok remote_ok 0 0 10 lunch lk_init))
     = Some (True, 0)"
  "lk_log (snd (savePrepList_lk JSON_stringify env_ok remote_ok 0 0 10 lunch lk_init))
     = [SelectCountLimit1 ''prep_lists'', UpsertPrepList (upsertPayload_lk lunch) no_options]"
  by (simp_all add: savePrepList_lk_def generateOperationKey_def isDuplicateOperation_def
      withLock_def executeWithLock_def settle_def savePrepList_op_def testConnection_lk_def
      lk_init_def env_ok_def remote_ok_def lk_issue_def truthy_def lunch_def
      upsertPayload_lk_def savedPrepList_lk_def stamped_prep_def template_def
      str_or_def array_or_empty_def Let_def)

lemma saveKey_lunch: "saveKey JSON_stringify lunch = ''prepList_p1_Lunch''"
  by (simp add: saveKey_def generateOperationKey_def lunch_def truthy_def template_def str_or_def)

theorem C3_dedupe_witness:
  "savePrepList_lk JSON_stringify env_ok remote_ok 1000 1000 1010 lunch
       (snd (savePrepList_lk JSON_stringify env_ok remote_ok 0 0 10 lunch lk_init))
     = (Settled (Inr lunch), snd (savePrepList_lk JSON_stringify env_ok remote_ok 0 0 10 lunch lk_init)) \<and>
   lk_log (snd (savePrepList_lk JSON_stringify env_ok remote_ok 5000 5000 5010 lunch
       (snd (savePrepList_lk JSON_stringify env_ok remote_ok 0 0 10 lunch lk_init))))
     = [SelectCountLimit1 ''prep_lists'', UpsertPrepList (upsertPayload_lk lunch) no_options,
        UpsertPrepList (upsertPayload_lk lunch) no_options] \<and>
   recentOperations (snd (savePrepList_lk JSON_stringify env_ok remote_ok 5000 5000 5010 lunch
       (snd (savePrepList_lk JSON_stringify env_ok remote_ok 0 0 10 lunch lk_init))))
     ''prepList_p1_Lunch'' = Some (5010, lunch)"
proof -
  let ?s1 = "snd (savePrepList_lk JSON_stringify env_ok remote_ok 0 0 10 lunch lk_init)"
  have tc: "testConnection_lk env_ok remote_ok 5000 ?s1 = (True, ?s1)"
    by (simp add: testConnection_lk_def first_save_lunch CACHE_DURATION_def)
  have nd: "\<not> fst (isDuplicateOperation JSON_stringify 5000 ''prepList_p1_Lunch'' lunch ?s1)"
    by (simp add: isDuplicateOperation_def first_save_lunch DUPLICATE_WINDOW_def)
  have up: "upsertPrepList remote_ok (lk_log ?s1) (upsertPayload_lk lunch)
      = Reply (Some (stamped_prep (Some ''t0'') (Some ''t0'') (upsertPayload_lk lunch))) None"
    by (simp add: remote_ok_def)
  have v: "truthy (pl_id lunch)" "truthy (pl_name lunch)"
    by (simp_all add: lunch_def truthy_def)
  show ?thesis
    using C3_dedupe [where s = ?s1 and stringify = JSON_stringify and p = lunch and ts = 10
        and ?p0.0 = lunch and t_check = 1000 and t_conn = 1000 and t_done = 1010
        and E = env_ok and R = remote_ok]
      C3_dedupe [where s = ?s1 and stringify = JSON_stringify and p = lunch and ts = 10
        and ?p0.0 = lunch and t_check = 5000 and t_conn = 5000 and t_done = 5010
        and E = env_ok and R = remote_ok
        and dt = "stamped_prep (Some ''t0'') (Some ''t0'') (upsertPayload_lk lunch)"]
      tc nd up v
    by (simp add: saveKey_lunch first_save_lunch DUPLICATE_WINDOW_def)
qed

section \<open>Deduplication of loaded prep lists\<close>


























end
